theory Spec2Isabelle
  imports Main
begin

section \<open>ydiff: normalisation, pruning and diff of YAML documents\<close>

text \<open>
  A shallow embedding of \<^verbatim>\<open>library/ydiff.py\<close>: the class \<^verbatim>\<open>YdiffDict\<close>
  (\<^verbatim>\<open>__normalize\<close>, \<^verbatim>\<open>__dict_to_yaml_str\<close>, \<^verbatim>\<open>__yaml_str_to_dict\<close>,
  \<^verbatim>\<open>dict2yaml\<close>, \<^verbatim>\<open>yaml2dict\<close>, \<^verbatim>\<open>del_ignore_keys\<close>, \<^verbatim>\<open>del_empty_keys\<close>)
  and the string path of \<^verbatim>\<open>main\<close>.

  Python raises are values of the type \<open>error\<close>; every function that can raise returns
  \<open>error + 'a\<close>. The PyYAML functions \<^verbatim>\<open>yaml.load\<close> and \<^verbatim>\<open>yaml.dump\<close> belong to an
  imported library: they are fields of a record that the functions take as a parameter.
  The source reads the interpreter's major version into the global \<^verbatim>\<open>PY2\<close>; the one
  place of the class where the two interpreters differ (\<^verbatim>\<open>dict.items()\<close> is a copy under
  Python 2 and a live view under Python 3) takes that flag as a parameter.
\<close>

subsection \<open>Python values\<close>

text \<open>
  The values \<^verbatim>\<open>yaml.load\<close> builds from the standard tags, floats and timestamps left
  out: \<^verbatim>\<open>None\<close>, booleans, integers, strings, lists and dictionaries. (A tuple comes
  only from a tag of PyYAML's own and is left out too.) A dictionary is the list of its
  items in insertion order; the keys Python accepts are hashable, here \<^verbatim>\<open>None\<close>, booleans,
  integers and strings.
\<close>

datatype pyobj =
    PNone
  | PBool bool
  | PInt int
  | PStr string
  | PList "pyobj list"
  | PDict "(pyobj \<times> pyobj) list"

text \<open>
  What ends a call without a result: the exceptions the code can raise, \<^verbatim>\<open>fail_json\<close>
  of the module, and \<open>Unmodelled\<close> for a document or value outside the table of PyYAML
  results given below.
\<close>

datatype error =
    YAMLError
  | UnboundLocalError
  | RuntimeError
  | AttributeError
  | FailJson
  | Unmodelled

text \<open>
  Python's \<^verbatim>\<open>==\<close> on hashable values: \<^verbatim>\<open>True == 1\<close> and \<^verbatim>\<open>False == 0\<close>, every other
  pair of values of different types is unequal.
\<close>

fun key_eq :: "pyobj \<Rightarrow> pyobj \<Rightarrow> bool" where
  "key_eq (PBool b) (PInt n) = (n = (if b then 1 else 0))"
| "key_eq (PInt n) (PBool b) = (n = (if b then 1 else 0))"
| "key_eq a b = (a = b)"

text \<open>
  Python's \<^verbatim>\<open>==\<close> on all values: lists are compared element by element, dictionaries
  by their items whatever the order.
\<close>

fun py_eq :: "pyobj \<Rightarrow> pyobj \<Rightarrow> bool" where
  "py_eq (PList xs) (PList ys) = list_all2 py_eq xs ys"
| "py_eq (PDict a) (PDict b) =
     (length a = length b \<and>
      list_all (\<lambda>(k, v). list_ex (\<lambda>(k', w). key_eq k k' \<and> py_eq v w) b) a)"
| "py_eq (PList xs) b = False"
| "py_eq (PDict a) b = False"
| "py_eq a (PList ys) = False"
| "py_eq a (PDict b) = False"
| "py_eq a b = key_eq a b"

text \<open>\<^verbatim>\<open>x in seq\<close>\<close>

definition py_in :: "pyobj \<Rightarrow> pyobj list \<Rightarrow> bool" where
  "py_in x seq = list_ex (\<lambda>e. py_eq e x) seq"

text \<open>\<^verbatim>\<open>d[key]\<close> (\<open>None\<close> is the \<^verbatim>\<open>KeyError\<close>) and \<^verbatim>\<open>d[key] = val\<close>\<close>

fun dict_get :: "(pyobj \<times> pyobj) list \<Rightarrow> pyobj \<Rightarrow> pyobj option" where
  "dict_get [] key = None"
| "dict_get ((k, v) # d) key = (if key_eq k key then Some v else dict_get d key)"

fun dict_set :: "(pyobj \<times> pyobj) list \<Rightarrow> pyobj \<Rightarrow> pyobj \<Rightarrow> (pyobj \<times> pyobj) list" where
  "dict_set [] key val = [(key, val)]"
| "dict_set ((k, v) # d) key val =
     (if key_eq k key then (k, val) # d else (k, v) # dict_set d key val)"

text \<open>\<^verbatim>\<open>dict(pairs)\<close>: the pairs are stored one after the other, the last value of a key wins.\<close>

definition dict_of_pairs :: "(pyobj \<times> pyobj) list \<Rightarrow> (pyobj \<times> pyobj) list" where
  "dict_of_pairs ps = foldl (\<lambda>d (k, v). dict_set d k v) [] ps"

text \<open>\<^verbatim>\<open>isinstance(x, (dict, list))\<close>\<close>

fun is_container :: "pyobj \<Rightarrow> bool" where
  "is_container (PList xs) = True"
| "is_container (PDict d) = True"
| "is_container x = False"

text \<open>\<^verbatim>\<open>str(n)\<close> for an integer, \<^verbatim>\<open>str(obj)\<close> for a value that is not a container\<close>

definition digit_chars :: string where
  "digit_chars = ''0123456789''"

fun str_nat :: "nat \<Rightarrow> string" where
  "str_nat n =
     (if n < 10 then [digit_chars ! n]
      else str_nat (n div 10) @ [digit_chars ! (n mod 10)])"

definition str_int :: "int \<Rightarrow> string" where
  "str_int i = (if i < 0 then CHR ''-'' # str_nat (nat (- i)) else str_nat (nat i))"

subsection \<open>The class YdiffDict\<close>

text \<open>The two tables of values that count as empty, inside a dictionary and inside a list\<close>

definition empty_dict_vals :: "pyobj list" where
  "empty_dict_vals = [PStr '''', PStr ''[]'', PStr ''{}'', PNone, PList [], PDict []]"

definition empty_list_vals :: "pyobj list" where
  "empty_list_vals = [PStr ''[]'', PStr ''{}'', PNone, PList [], PDict []]"

definition null_tokens :: "pyobj list" where
  "null_tokens = [PStr ''None'', PStr ''null'', PStr ''Null'', PStr ''NULL'']"

text \<open>
  \<^verbatim>\<open>__normalize\<close>: the test against the four tokens comes first, then lists, then
  dictionaries, and \<^verbatim>\<open>str(obj)\<close> for everything else, \<^verbatim>\<open>None\<close> included.
\<close>

fun normalize :: "pyobj \<Rightarrow> pyobj" where
  "normalize (PList xs) =
     (if py_in (PList xs) null_tokens then PNone else PList (map normalize xs))"
| "normalize (PDict d) =
     (if py_in (PDict d) null_tokens then PNone
      else PDict (dict_of_pairs (map (\<lambda>(key, val). (normalize key, normalize val)) d)))"
| "normalize PNone =
     (if py_in PNone null_tokens then PNone else PStr ''None'')"
| "normalize (PBool b) =
     (if py_in (PBool b) null_tokens then PNone else PStr (if b then ''True'' else ''False''))"
| "normalize (PInt i) =
     (if py_in (PInt i) null_tokens then PNone else PStr (str_int i))"
| "normalize (PStr s) =
     (if py_in (PStr s) null_tokens then PNone else PStr s)"

text \<open>The imported module \<^verbatim>\<open>yaml\<close>; a \<^verbatim>\<open>yaml.YAMLError\<close> is the value \<open>Inl YAMLError\<close>.\<close>

record yaml_module =
  yaml_load :: "string \<Rightarrow> error + pyobj"
  yaml_dump :: "pyobj \<Rightarrow> error + string"

text \<open>
  \<^verbatim>\<open>__dict_to_yaml_str\<close> and \<^verbatim>\<open>__yaml_str_to_dict\<close>. The handler of a
  \<^verbatim>\<open>YAMLError\<close> is \<^verbatim>\<open>module.fail_json\<close>, which ends the run: the error is the result.
\<close>

definition dict_to_yaml_str :: "yaml_module \<Rightarrow> pyobj \<Rightarrow> error + string" where
  "dict_to_yaml_str yaml obj = yaml_dump yaml (normalize obj)"

definition yaml_str_to_dict :: "yaml_module \<Rightarrow> string \<Rightarrow> error + pyobj" where
  "yaml_str_to_dict yaml string =
     (case yaml_load yaml string of
        Inl err \<Rightarrow> Inl err
      | Inr obj \<Rightarrow>
          (let obj = normalize obj in
           if obj = PNone then Inr (PDict []) else Inr obj))"

definition dict2yaml :: "yaml_module \<Rightarrow> pyobj \<Rightarrow> error + string" where
  "dict2yaml yaml obj = dict_to_yaml_str yaml obj"

text \<open>
  \<^verbatim>\<open>yaml2dict\<close> takes a dictionary or a text (the value \<open>PStr\<close>); \<^verbatim>\<open>yaml.load\<close> of
  any other value has no \<^verbatim>\<open>read\<close> attribute.
\<close>

fun yaml2dict :: "yaml_module \<Rightarrow> pyobj \<Rightarrow> error + pyobj" where
  "yaml2dict yaml (PDict d) =
     (case dict_to_yaml_str yaml (PDict d) of
        Inl err \<Rightarrow> Inl err
      | Inr string \<Rightarrow> yaml_str_to_dict yaml string)"
| "yaml2dict yaml (PStr string) = yaml_str_to_dict yaml string"
| "yaml2dict yaml obj = Inl AttributeError"

text \<open>
  \<^verbatim>\<open>del_ignore_keys\<close>. \<open>del_ignore_items\<close> is the loop over \<^verbatim>\<open>src_dict.items()\<close>,
  \<open>del_ignore_elems\<close> the loop over \<^verbatim>\<open>reversed(range(len(src_dict)))\<close>: its first
  argument holds the elements still to visit, last element of the list first, so that the
  index of the head is the length of the tail. Both loops carry \<^verbatim>\<open>result_dict\<close>. In the
  second loop the name \<^verbatim>\<open>key\<close> was never assigned, so the keep branch raises.
\<close>

function (sequential)
  del_ignore_keys :: "pyobj \<Rightarrow> pyobj \<Rightarrow> error + pyobj" and
  del_ignore_items ::
    "(pyobj \<times> pyobj) list \<Rightarrow> (pyobj \<times> pyobj) list \<Rightarrow> (pyobj \<times> pyobj) list
      \<Rightarrow> error + (pyobj \<times> pyobj) list" and
  del_ignore_elems ::
    "pyobj list \<Rightarrow> pyobj \<Rightarrow> (pyobj \<times> pyobj) list \<Rightarrow> error + (pyobj \<times> pyobj) list"
where
  "del_ignore_keys (PDict src_dict) (PDict del_dict) =
     (case del_ignore_items src_dict del_dict [] of
        Inl err \<Rightarrow> Inl err
      | Inr result_dict \<Rightarrow> Inr (PDict result_dict))"
| "del_ignore_keys (PList src_dict) (PList [del_val]) =
     (case del_ignore_elems (rev src_dict) del_val [] of
        Inl err \<Rightarrow> Inl err
      | Inr result_dict \<Rightarrow> Inr (PDict result_dict))"
| "del_ignore_keys src_dict del_dict = Inr (PDict [])"
| "del_ignore_items [] del_dict result_dict = Inr result_dict"
| "del_ignore_items ((key, src_val) # items) del_dict result_dict =
     (case dict_get del_dict key of
        None \<Rightarrow> del_ignore_items items del_dict (dict_set result_dict key src_val)
      | Some del_val \<Rightarrow>
          if is_container src_val \<and> is_container del_val then
            (case del_ignore_keys src_val del_val of
               Inl err \<Rightarrow> Inl err
             | Inr r \<Rightarrow> del_ignore_items items del_dict (dict_set result_dict key r))
          else if py_in del_val empty_dict_vals then
            del_ignore_items items del_dict result_dict
          else if py_eq del_val src_val then
            del_ignore_items items del_dict result_dict
          else
            del_ignore_items items del_dict (dict_set result_dict key src_val))"
| "del_ignore_elems [] del_val result_dict = Inr result_dict"
| "del_ignore_elems (src_val # todo) del_val result_dict =
     (if is_container src_val \<and> is_container del_val then
        (case del_ignore_keys src_val del_val of
           Inl err \<Rightarrow> Inl err
         | Inr r \<Rightarrow>
             del_ignore_elems todo del_val
               (dict_set result_dict (PInt (int (length todo))) r))
      else if py_in del_val empty_list_vals then
        del_ignore_elems todo del_val result_dict
      else if py_eq del_val src_val then
        del_ignore_elems todo del_val result_dict
      else
        Inl UnboundLocalError)"
  by pat_completeness auto

termination
  apply (relation "measure (\<lambda>x. case x of
      Inl (s, d) \<Rightarrow> 2 * size s
    | Inr (Inl (items, dd, res)) \<Rightarrow> 2 * size_list (size_prod size size) items + 1
    | Inr (Inr (todo, dv, res)) \<Rightarrow> 2 * size_list size todo + 1)")
        apply simp_all
  apply (simp add: size_list_conv_sum_list rev_map [symmetric])
  done

text \<open>
  \<^verbatim>\<open>del_empty_keys\<close> changes \<^verbatim>\<open>obj\<close> in place and returns it; the model returns the
  new value. \<open>del_empty_items\<close> is the loop over \<^verbatim>\<open>obj.items()\<close>. Under Python 2
  \<^verbatim>\<open>items()\<close> is a copy of the items and \<^verbatim>\<open>del obj[key]\<close> leaves the loop alone; under
  Python 3 it is a view of the dictionary, and the step of the iterator that follows a
  \<^verbatim>\<open>del obj[key]\<close> raises \<^verbatim>\<open>RuntimeError\<close> (dictionary changed size during iteration).
  \<open>del_empty_elems\<close> is the loop over \<^verbatim>\<open>reversed(range(len(obj)))\<close>: its second argument
  holds the elements still to visit, last element of the list first, and the result is the
  list that is left, \<^verbatim>\<open>obj.pop(idx)\<close> having removed the empty elements. A value is
  taken to be a tree: no object is shared between two places of it.
\<close>

function (sequential)
  del_empty_keys :: "bool \<Rightarrow> pyobj \<Rightarrow> error + pyobj" and
  del_empty_items :: "bool \<Rightarrow> (pyobj \<times> pyobj) list \<Rightarrow> error + (pyobj \<times> pyobj) list" and
  del_empty_elems :: "bool \<Rightarrow> pyobj list \<Rightarrow> error + pyobj list"
where
  "del_empty_keys py2 (PDict obj) =
     (case del_empty_items py2 obj of
        Inl err \<Rightarrow> Inl err
      | Inr obj' \<Rightarrow> Inr (PDict obj'))"
| "del_empty_keys py2 (PList obj) =
     (case del_empty_elems py2 (rev obj) of
        Inl err \<Rightarrow> Inl err
      | Inr obj' \<Rightarrow> Inr (PList obj'))"
| "del_empty_keys py2 obj = Inr obj"
| "del_empty_items py2 [] = Inr []"
| "del_empty_items py2 ((key, val) # items) =
     (case (if is_container val then del_empty_keys py2 val else Inr val) of
        Inl err \<Rightarrow> Inl err
      | Inr val' \<Rightarrow>
          if py_in val' empty_dict_vals then
            (if py2 then del_empty_items py2 items else Inl RuntimeError)
          else
            (case del_empty_items py2 items of
               Inl err \<Rightarrow> Inl err
             | Inr items' \<Rightarrow> Inr ((key, val') # items')))"
| "del_empty_elems py2 [] = Inr []"
| "del_empty_elems py2 (val # todo) =
     (case (if is_container val then del_empty_keys py2 val else Inr val) of
        Inl err \<Rightarrow> Inl err
      | Inr val' \<Rightarrow>
          (case del_empty_elems py2 todo of
             Inl err \<Rightarrow> Inl err
           | Inr obj' \<Rightarrow>
               if py_in val' empty_list_vals then Inr obj' else Inr (obj' @ [val'])))"
  by pat_completeness auto
termination
  apply (relation "measure (\<lambda>x. case x of
      Inl (py2, obj) \<Rightarrow> 2 * size obj
    | Inr (Inl (py2, items)) \<Rightarrow> 2 * size_list (size_prod size size) items + 1
    | Inr (Inr (py2, todo)) \<Rightarrow> 2 * size_list size todo + 1)")
        apply simp_all
  apply (simp add: size_list_conv_sum_list rev_map [symmetric])
  done

subsection \<open>The module: main\<close>

text \<open>
  The parameters of a run whose \<^verbatim>\<open>source_type\<close> and \<^verbatim>\<open>target_type\<close> are
  \<^verbatim>\<open>string\<close> (the default): \<^verbatim>\<open>eval_input\<close> returns the two texts as they are.
\<close>

record params =
  source :: string
  target :: string
  diff_ignore_keys :: pyobj
  diff_ignore_empty :: bool

record diff_result =
  before :: string
  after :: string
  changed :: bool

text \<open>
  \<^verbatim>\<open>assert_ignore_keys\<close>: \<^verbatim>\<open>fail_json\<close> ends the run (\<open>FailJson\<close>, its message left
  out).
\<close>

fun assert_ignore_keys :: "pyobj \<Rightarrow> error + unit" where
  "assert_ignore_keys (PStr s) = Inl FailJson"
| "assert_ignore_keys (PDict d) = Inr ()"
| "assert_ignore_keys ignore_keys = Inl FailJson"

definition bind :: "error + 'a \<Rightarrow> ('a \<Rightarrow> error + 'b) \<Rightarrow> error + 'b" where
  "bind m f = (case m of Inl err \<Rightarrow> Inl err | Inr x \<Rightarrow> f x)"

definition main :: "yaml_module \<Rightarrow> bool \<Rightarrow> params \<Rightarrow> error + diff_result" where
  "main yaml py2 module =
     bind (assert_ignore_keys (diff_ignore_keys module)) (\<lambda>_.
     bind (yaml2dict yaml (diff_ignore_keys module)) (\<lambda>ignore_keys.
     bind (yaml2dict yaml (PStr (source module))) (\<lambda>src.
     bind (yaml2dict yaml (PStr (target module))) (\<lambda>tgt.
     bind (del_ignore_keys src ignore_keys) (\<lambda>src.
     bind (del_ignore_keys tgt ignore_keys) (\<lambda>tgt.
     bind (if diff_ignore_empty module then del_empty_keys py2 tgt else Inr tgt) (\<lambda>tgt.
     bind (dict2yaml yaml src) (\<lambda>src.
     bind (dict2yaml yaml tgt) (\<lambda>tgt.
     Inr \<lparr>before = tgt, after = src, changed = (src \<noteq> tgt)\<rparr>)))))))))"

subsection \<open>PyYAML on one-word documents\<close>

text \<open>
  What \<^verbatim>\<open>yaml.load\<close> and \<^verbatim>\<open>yaml.dump(obj, default_flow_style=False, allow_unicode=True)\<close>
  of PyYAML do on the smallest documents: an empty or blank text, one plain word,
  \<^verbatim>\<open>{}\<close> and \<^verbatim>\<open>[]\<close>, with or without the final line break and the document end
  marker that \<^verbatim>\<open>yaml.dump\<close> writes after a plain scalar. A plain word is resolved as
  YAML 1.1 says: \<^verbatim>\<open>~\<close>, \<^verbatim>\<open>null\<close>, \<^verbatim>\<open>Null\<close>, \<^verbatim>\<open>NULL\<close> and the empty document are
  \<^verbatim>\<open>None\<close>, the boolean words are booleans, any other word of letters is a string.
  Everything else is outside this table and answers \<open>Inl Unmodelled\<close>. The table serves
  to evaluate the functions above on concrete texts.
\<close>

definition nl :: char where
  "nl = CHR 0x0A"

definition is_letter :: "char \<Rightarrow> bool" where
  "is_letter c =
     (let n = (of_char c :: nat) in (65 \<le> n \<and> n \<le> 90) \<or> (97 \<le> n \<and> n \<le> 122))"

definition yaml_null_words :: "string list" where
  "yaml_null_words = [''~'', ''null'', ''Null'', ''NULL'']"

definition yaml_true_words :: "string list" where
  "yaml_true_words =
     [''yes'', ''Yes'', ''YES'', ''true'', ''True'', ''TRUE'', ''on'', ''On'', ''ON'']"

definition yaml_false_words :: "string list" where
  "yaml_false_words =
     [''no'', ''No'', ''NO'', ''false'', ''False'', ''FALSE'', ''off'', ''Off'', ''OFF'']"

definition plain_str :: "string \<Rightarrow> bool" where
  "plain_str w =
     (w \<noteq> [] \<and> list_all is_letter w
      \<and> w \<notin> set (yaml_null_words @ yaml_true_words @ yaml_false_words))"

definition pyyaml_load :: "string \<Rightarrow> error + pyobj" where
  "pyyaml_load s =
     (if list_all (\<lambda>c. c = CHR '' '' \<or> c = nl) s then Inr PNone
      else
        let w = takeWhile (\<lambda>c. c \<noteq> nl) s; rest = dropWhile (\<lambda>c. c \<noteq> nl) s in
        if rest \<notin> set [[], [nl], nl # ''...'' @ [nl]] then Inl Unmodelled
        else if w \<in> set yaml_null_words then Inr PNone
        else if w = ''{}'' then Inr (PDict [])
        else if w = ''[]'' then Inr (PList [])
        else if w \<in> set yaml_true_words then Inr (PBool True)
        else if w \<in> set yaml_false_words then Inr (PBool False)
        else if plain_str w then Inr (PStr w)
        else Inl Unmodelled)"

fun pyyaml_dump :: "pyobj \<Rightarrow> error + string" where
  "pyyaml_dump PNone = Inr (''null'' @ nl # ''...'' @ [nl])"
| "pyyaml_dump (PBool b) = Inr ((if b then ''true'' else ''false'') @ nl # ''...'' @ [nl])"
| "pyyaml_dump (PStr w) =
     (if plain_str w then Inr (w @ nl # ''...'' @ [nl]) else Inl Unmodelled)"
| "pyyaml_dump (PList []) = Inr (''[]'' @ [nl])"
| "pyyaml_dump (PDict []) = Inr (''{}'' @ [nl])"
| "pyyaml_dump obj = Inl Unmodelled"

definition pyyaml :: yaml_module where
  "pyyaml = \<lparr>yaml_load = pyyaml_load, yaml_dump = pyyaml_dump\<rparr>"

subsection \<open>Well-formed values, normal forms, and the pruning as the specification words it\<close>

text \<open>
  The keys of a Python dictionary are pairwise different; \<open>dict_wf\<close> says so of a list of
  items and \<open>py_wf\<close> of every dictionary inside a value.
\<close>

fun dict_wf :: "(pyobj \<times> pyobj) list \<Rightarrow> bool" where
  "dict_wf [] = True"
| "dict_wf ((k, v) # d) = (list_all (\<lambda>(k', v'). \<not> key_eq k' k) d \<and> dict_wf d)"

fun py_wf :: "pyobj \<Rightarrow> bool" where
  "py_wf (PList xs) = list_all py_wf xs"
| "py_wf (PDict d) = (list_all (\<lambda>(k, v). py_wf k \<and> py_wf v) d \<and> dict_wf d)"
| "py_wf x = True"

text \<open>
  The values \<^verbatim>\<open>__normalize\<close> returns: every leaf is \<^verbatim>\<open>None\<close> or a string other than
  \<^verbatim>\<open>'null'\<close>, \<^verbatim>\<open>'Null'\<close> and \<^verbatim>\<open>'NULL'\<close>, and the keys of a dictionary are
  pairwise different.
\<close>

fun normal :: "pyobj \<Rightarrow> bool" where
  "normal PNone = True"
| "normal (PBool b) = False"
| "normal (PInt i) = False"
| "normal (PStr s) = (s \<noteq> ''null'' \<and> s \<noteq> ''Null'' \<and> s \<noteq> ''NULL'')"
| "normal (PList xs) = list_all normal xs"
| "normal (PDict d) = (list_all (\<lambda>(k, v). normal k \<and> normal v) d \<and> dict_wf d)"

text \<open>
  \<^verbatim>\<open>yaml.load(yaml.dump(obj)) == obj\<close>, the contract of the library for one value: the
  dump succeeds, and the text loads as a well-formed value that Python's \<^verbatim>\<open>==\<close> equates
  with \<open>obj\<close>.
\<close>

definition yaml_roundtrips :: "yaml_module \<Rightarrow> pyobj \<Rightarrow> bool" where
  "yaml_roundtrips yaml obj =
     (case yaml_dump yaml obj of
        Inl err \<Rightarrow> False
      | Inr txt \<Rightarrow>
          (case yaml_load yaml txt of
             Inl err \<Rightarrow> False
           | Inr v \<Rightarrow> py_wf v \<and> py_eq v obj))"

text \<open>
  The pruning of empty values as a map followed by a filter, bottom-up, with the two sets
  of empty values written out: inside a dictionary \<^verbatim>\<open>None\<close>, \<^verbatim>\<open>''\<close>, \<^verbatim>\<open>'[]'\<close>,
  \<^verbatim>\<open>'{}'\<close>, \<^verbatim>\<open>[]\<close> and \<^verbatim>\<open>{}\<close>; inside a list the same without \<^verbatim>\<open>''\<close>.
\<close>

fun prune_empty_spec :: "pyobj \<Rightarrow> pyobj" where
  "prune_empty_spec (PDict d) =
     PDict (filter
       (\<lambda>(k, v). v \<notin> set [PNone, PStr '''', PStr ''[]'', PStr ''{}'', PList [], PDict []])
       (map (\<lambda>(k, v). (k, prune_empty_spec v)) d))"
| "prune_empty_spec (PList xs) =
     PList (filter
       (\<lambda>v. v \<notin> set [PNone, PStr ''[]'', PStr ''{}'', PList [], PDict []])
       (map prune_empty_spec xs))"
| "prune_empty_spec x = x"

text \<open>
  The body of the loop of \<open>del_ignore_items\<close> for one item, given what \<^verbatim>\<open>del_dict[key]\<close>
  found: the value to store under the key, \<open>None\<close> when the item is dropped, or the error
  of the recursive call.
\<close>

definition keep_item :: "pyobj \<Rightarrow> pyobj option \<Rightarrow> error + pyobj option" where
  "keep_item src_val del =
     (case del of
        None \<Rightarrow> Inr (Some src_val)
      | Some del_val \<Rightarrow>
          if is_container src_val \<and> is_container del_val then
            (case del_ignore_keys src_val del_val of
               Inl err \<Rightarrow> Inl err
             | Inr r \<Rightarrow> Inr (Some r))
          else if py_in del_val empty_dict_vals \<or> py_eq del_val src_val then Inr None
          else Inr (Some src_val))"

section \<open>Properties\<close>

lemmas pyyaml_eval =
  pyyaml_def pyyaml_load_def plain_str_def nl_def is_letter_def
  yaml_null_words_def yaml_true_words_def yaml_false_words_def

lemmas ydiff_eval =
  main_def bind_def dict2yaml_def dict_to_yaml_str_def yaml_str_to_dict_def
  py_in_def null_tokens_def empty_dict_vals_def empty_list_vals_def dict_of_pairs_def

subsection \<open>Keys, dictionaries and normal forms\<close>

lemma key_eq_refl [simp]: "key_eq a a"
  by (cases a) simp_all

lemma key_eq_sym: "key_eq a b \<Longrightarrow> key_eq b a"
  by (cases a; cases b) (simp_all split: if_splits)

lemma key_eq_trans: "key_eq a b \<Longrightarrow> key_eq b c \<Longrightarrow> key_eq a c"
  by (cases a; cases b; cases c) (simp_all split: if_splits)

lemma py_in_null_tokens:
  "py_in x null_tokens = (x \<in> {PStr ''None'', PStr ''null'', PStr ''Null'', PStr ''NULL''})"
  by (cases x) (auto simp: py_in_def null_tokens_def)

lemma normalize_simps:
  "normalize PNone = PStr ''None''"
  "normalize (PBool b) = PStr (if b then ''True'' else ''False'')"
  "normalize (PInt i) = PStr (str_int i)"
  "normalize (PStr s) = (if s \<in> {''None'', ''null'', ''Null'', ''NULL''} then PNone else PStr s)"
  "normalize (PList xs) = PList (map normalize xs)"
  "normalize (PDict d) = PDict (dict_of_pairs (map (\<lambda>(key, val). (normalize key, normalize val)) d))"
  by (simp_all add: py_in_null_tokens)

declare normalize.simps [simp del]
declare normalize_simps [simp]

lemma normal_key_eq: "normal a \<Longrightarrow> key_eq a b = (a = b)"
  by (cases a; cases b) simp_all

lemma normal_key_eq': "normal b \<Longrightarrow> key_eq a b = (a = b)"
  by (cases a; cases b) simp_all

lemma dict_set_no_key:
  "list_all (\<lambda>(k', v'). \<not> key_eq k' k) d \<Longrightarrow> dict_set d k v = d @ [(k, v)]"
  by (induction d) auto

lemma dict_set_keys_other:
  "list_all (\<lambda>(k', v'). \<not> key_eq k' x) d \<Longrightarrow> \<not> key_eq k x \<Longrightarrow>
   list_all (\<lambda>(k', v'). \<not> key_eq k' x) (dict_set d k v)"
  by (induction d) auto

lemma dict_wf_dict_set: "dict_wf d \<Longrightarrow> dict_wf (dict_set d k v)"
proof (induction d)
  case Nil
  then show ?case by simp
next
  case (Cons p d)
  obtain k0 v0 where p: "p = (k0, v0)" by (cases p)
  show ?case
  proof (cases "key_eq k0 k")
    case True
    with Cons.prems p show ?thesis by simp
  next
    case False
    have "list_all (\<lambda>(k', v'). \<not> key_eq k' k0) (dict_set d k v)"
      using Cons.prems p False by (auto intro!: dict_set_keys_other dest: key_eq_sym)
    with Cons p False show ?thesis by simp
  qed
qed

lemma dict_set_mem:
  "(a, b) \<in> set (dict_set d k v) \<Longrightarrow>
   (a = k \<or> a \<in> fst ` set d) \<and> (b = v \<or> b \<in> snd ` set d)"
  by (induction d) (force split: if_splits)+

lemma dict_set_keys: "fst ` set (dict_set d k v) \<subseteq> insert k (fst ` set d)"
  using dict_set_mem by fastforce

lemma dict_set_vals: "snd ` set (dict_set d k v) \<subseteq> insert v (snd ` set d)"
  using dict_set_mem by fastforce

lemma foldl_dict_set_wf:
  "dict_wf acc \<Longrightarrow> dict_wf (foldl (\<lambda>d (k, v). dict_set d k v) acc ps)"
  by (induction ps arbitrary: acc) (auto simp: dict_wf_dict_set)

lemma foldl_dict_set_keys:
  "fst ` set (foldl (\<lambda>d (k, v). dict_set d k v) acc ps) \<subseteq> fst ` set acc \<union> fst ` set ps"
proof (induction ps arbitrary: acc)
  case Nil
  then show ?case by simp
next
  case (Cons p ps)
  obtain k v where p: "p = (k, v)" by (cases p)
  have "fst ` set (foldl (\<lambda>d (k, v). dict_set d k v) (dict_set acc k v) ps)
        \<subseteq> fst ` set (dict_set acc k v) \<union> fst ` set ps"
    by (rule Cons.IH)
  also have "\<dots> \<subseteq> insert k (fst ` set acc) \<union> fst ` set ps"
    using dict_set_keys [of acc k v] by blast
  finally show ?case using p by auto
qed

lemma foldl_dict_set_vals:
  "snd ` set (foldl (\<lambda>d (k, v). dict_set d k v) acc ps) \<subseteq> snd ` set acc \<union> snd ` set ps"
proof (induction ps arbitrary: acc)
  case Nil
  then show ?case by simp
next
  case (Cons p ps)
  obtain k v where p: "p = (k, v)" by (cases p)
  have "snd ` set (foldl (\<lambda>d (k, v). dict_set d k v) (dict_set acc k v) ps)
        \<subseteq> snd ` set (dict_set acc k v) \<union> snd ` set ps"
    by (rule Cons.IH)
  also have "\<dots> \<subseteq> insert v (snd ` set acc) \<union> snd ` set ps"
    using dict_set_vals [of acc k v] by blast
  finally show ?case using p by auto
qed

lemma dict_of_pairs_wf: "dict_wf (dict_of_pairs ps)"
  by (simp add: dict_of_pairs_def foldl_dict_set_wf)

lemma dict_of_pairs_keys: "fst ` set (dict_of_pairs ps) \<subseteq> fst ` set ps"
  using foldl_dict_set_keys [of "[]" ps] by (simp add: dict_of_pairs_def)

lemma dict_of_pairs_vals: "snd ` set (dict_of_pairs ps) \<subseteq> snd ` set ps"
  using foldl_dict_set_vals [of "[]" ps] by (simp add: dict_of_pairs_def)

lemma dict_wf_append:
  "dict_wf (a @ b) =
     (dict_wf a \<and> dict_wf b \<and> (\<forall>(k, v) \<in> set a. \<forall>(k', v') \<in> set b. \<not> key_eq k' k))"
proof (induction a)
  case Nil
  then show ?case by simp
next
  case (Cons p a)
  obtain k v where p: "p = (k, v)" by (cases p)
  show ?case unfolding p using Cons.IH
    by (simp add: list_all_iff case_prod_beta ball_Un) blast
qed

lemma foldl_dict_set_distinct:
  "dict_wf (acc @ ps) \<Longrightarrow> foldl (\<lambda>d (k, v). dict_set d k v) acc ps = acc @ ps"
proof (induction ps arbitrary: acc)
  case Nil
  then show ?case by simp
next
  case (Cons p ps)
  obtain k v where p: "p = (k, v)" by (cases p)
  from Cons.prems p have none: "list_all (\<lambda>(k', v'). \<not> key_eq k' k) acc"
    by (auto simp: dict_wf_append list_all_iff dest: key_eq_sym)
  from Cons.prems p have "dict_wf ((acc @ [(k, v)]) @ ps)" by simp
  then have "foldl (\<lambda>d (k, v). dict_set d k v) (acc @ [(k, v)]) ps = (acc @ [(k, v)]) @ ps"
    by (rule Cons.IH)
  with none p show ?case by (simp add: dict_set_no_key)
qed

lemma dict_of_pairs_distinct: "dict_wf ps \<Longrightarrow> dict_of_pairs ps = ps"
  using foldl_dict_set_distinct [of "[]" ps] by (simp add: dict_of_pairs_def)

lemma digit_char: "(k::nat) < 10 \<Longrightarrow> digit_chars ! k \<in> set digit_chars"
  by (rule nth_mem) (simp add: digit_chars_def)

lemma str_nat_digits: "set (str_nat n) \<subseteq> set digit_chars"
proof (induction n rule: str_nat.induct)
  case (1 n)
  show ?case
  proof (cases "n < 10")
    case True
    then show ?thesis using digit_char [of n] by (subst str_nat.simps) simp
  next
    case False
    have "n mod 10 < 10" by simp
    then have "digit_chars ! (n mod 10) \<in> set digit_chars" by (rule digit_char)
    with False 1 show ?thesis by (subst str_nat.simps) simp
  qed
qed

lemma str_int_not_token:
  "str_int i \<notin> {''None'', ''null'', ''Null'', ''NULL''}"
proof -
  have "set (str_int i) \<subseteq> insert CHR ''-'' (set digit_chars)"
    using str_nat_digits [of "nat i"] str_nat_digits [of "nat (- i)"]
    unfolding str_int_def by (cases "i < 0") (simp_all add: subset_insertI2)
  then have a: "CHR ''N'' \<notin> set (str_int i)" and b: "CHR ''n'' \<notin> set (str_int i)"
    by (auto simp: digit_chars_def)
  show ?thesis
  proof
    assume "str_int i \<in> {''None'', ''null'', ''Null'', ''NULL''}"
    then have "CHR ''N'' \<in> set (str_int i) \<or> CHR ''n'' \<in> set (str_int i)" by auto
    with a b show False by simp
  qed
qed

lemma normal_normalize: "normal (normalize x)"
proof (induction x rule: normalize.induct)
  case (1 xs)
  then show ?case by (simp add: normalize_simps list_all_iff py_in_null_tokens)
next
  case (2 d)
  let ?ps = "map (\<lambda>(key, val). (normalize key, normalize val)) d"
  have ih: "\<And>k v. (k, v) \<in> set d \<Longrightarrow> normal (normalize k) \<and> normal (normalize v)"
    using 2 by (auto simp: py_in_null_tokens)
  have "\<And>a b. (a, b) \<in> set (dict_of_pairs ?ps) \<Longrightarrow> normal a \<and> normal b"
  proof -
    fix a b assume ab: "(a, b) \<in> set (dict_of_pairs ?ps)"
    then have "a \<in> fst ` set ?ps" "b \<in> snd ` set ?ps"
      using dict_of_pairs_keys [of ?ps] dict_of_pairs_vals [of ?ps] by force+
    then show "normal a \<and> normal b" using ih by auto
  qed
  then show ?case
    by (auto simp: normalize_simps list_all_iff dict_of_pairs_wf)
next
  case (5 i)
  then show ?case using str_int_not_token [of i] by (simp add: normalize_simps)
qed (simp_all add: normalize_simps py_in_null_tokens)


lemma normalize_inj_on_normal:
  assumes "normal a" "normal b"
    and "normalize (normalize a) = a" "normalize (normalize b) = b"
    and "key_eq (normalize a) (normalize b)"
  shows "a = b"
proof -
  have eq: "normalize a = normalize b"
    using assms(5) normal_key_eq [OF normal_normalize [of a]] by blast
  have "a = normalize (normalize a)" using assms(3) by (rule sym)
  also have "\<dots> = normalize (normalize b)" using eq by (rule arg_cong)
  also have "\<dots> = b" by (rule assms(4))
  finally show ?thesis .
qed

lemma dict_wf_map_inj:
  assumes "dict_wf d"
    and "\<And>k v k' v'. (k, v) \<in> set d \<Longrightarrow> (k', v') \<in> set d \<Longrightarrow> key_eq (f k') (f k) \<Longrightarrow> key_eq k' k"
  shows "dict_wf (map (\<lambda>(k, v). (f k, g v)) d)"
  using assms
proof (induction d)
  case Nil
  then show ?case by simp
next
  case (Cons p d)
  obtain k v where p: "p = (k, v)" by (cases p)
  have "dict_wf (map (\<lambda>(k, v). (f k, g v)) d)"
    using Cons.prems p by (intro Cons.IH) auto
  moreover have "list_all (\<lambda>(k', v'). \<not> key_eq k' (f k)) (map (\<lambda>(k, v). (f k, g v)) d)"
    using Cons.prems p by (fastforce simp: list_all_iff)
  ultimately show ?case using p by simp
qed

lemma normalize_involution: "normal v \<Longrightarrow> normalize (normalize v) = v"
proof (induction v rule: normalize.induct)
  case (1 xs)
  then show ?case
    by (auto simp: normalize_simps list_all_iff py_in_null_tokens intro: map_idI)
next
  case (2 d)
  let ?nn = "\<lambda>(key, val). (normalize key, normalize val)"
  have ih: "\<And>k v. (k, v) \<in> set d \<Longrightarrow>
      normal k \<and> normal v \<and> normalize (normalize k) = k \<and> normalize (normalize v) = v"
    using 2 by (auto simp: py_in_null_tokens list_all_iff)
  have wf: "dict_wf d" using "2.prems" by simp
  have "dict_wf (map ?nn d)"
  proof (rule dict_wf_map_inj [OF wf])
    fix k v k' v'
    assume "(k, v) \<in> set d" "(k', v') \<in> set d" "key_eq (normalize k') (normalize k)"
    then have "k' = k" using ih normalize_inj_on_normal by blast
    then show "key_eq k' k" by simp
  qed
  then have 1: "dict_of_pairs (map ?nn d) = map ?nn d" by (rule dict_of_pairs_distinct)
  have "dict_wf (map ?nn (map ?nn d))"
  proof -
    have "map ?nn (map ?nn d) = d"
      using ih by (auto intro!: map_idI)
    with wf show ?thesis by simp
  qed
  then have 2: "dict_of_pairs (map ?nn (map ?nn d)) = map ?nn (map ?nn d)"
    by (rule dict_of_pairs_distinct)
  have 3: "map ?nn (map ?nn d) = d"
    using ih by (auto intro!: map_idI)
  have "normalize (normalize (PDict d)) = normalize (PDict (map ?nn d))"
    by (simp only: normalize_simps 1)
  also have "\<dots> = PDict (map ?nn (map ?nn d))"
    by (simp only: normalize_simps 2)
  finally show ?case by (simp only: 3)
next
  case (6 s)
  then show ?case by (auto simp: normalize_simps)
qed (simp_all add: normalize_simps)

lemma normalize_thrice: "normalize (normalize (normalize x)) = normalize x"
  by (rule normalize_involution) (rule normal_normalize)


lemma normalize_normal_dict:
  assumes "normal (PDict d)"
  shows "normalize (PDict d) = PDict (map (\<lambda>(key, val). (normalize key, normalize val)) d)"
proof -
  let ?nn = "\<lambda>(key, val). (normalize key, normalize val)"
  have nk: "\<And>k v. (k, v) \<in> set d \<Longrightarrow> normal k"
    using assms by (auto simp: list_all_iff)
  have "dict_wf (map ?nn d)"
  proof (rule dict_wf_map_inj)
    show "dict_wf d" using assms by simp
  next
    fix k v k' v'
    assume "(k, v) \<in> set d" "(k', v') \<in> set d" "key_eq (normalize k') (normalize k)"
    then have "k' = k"
      using nk normalize_involution normalize_inj_on_normal by blast
    then show "key_eq k' k" by simp
  qed
  then show ?thesis by (simp add: dict_of_pairs_distinct)
qed

lemma list_all2_left:
  "list_all2 P xs ys \<Longrightarrow> x \<in> set xs \<Longrightarrow> \<exists>y \<in> set ys. P x y"
  by (induction rule: list_all2_induct) auto

lemma py_eq_scalar:
  "\<not> is_container a \<or> \<not> is_container b \<Longrightarrow> py_eq a b = key_eq a b"
  by (cases a; cases b) simp_all

lemma py_eq_normal: "normal v \<Longrightarrow> py_wf v' \<Longrightarrow> py_eq v' v \<Longrightarrow> normal v'"
proof (induction v' v rule: py_eq.induct)
  case (1 xs ys)
  have "normal x" if x: "x \<in> set xs" for x
  proof -
    have "list_all2 py_eq xs ys" using "1.prems" by simp
    from list_all2_left [OF this x] obtain y where y: "y \<in> set ys" "py_eq x y"
      by blast
    have "normal y" "py_wf x"
      using "1.prems" x y(1) by (auto simp: list_all_iff)
    then show ?thesis using "1.IH" x y by blast
  qed
  then show ?case by (simp add: list_all_iff)
next
  case (2 a b)
  have "normal k \<and> normal v" if kv: "(k, v) \<in> set a" for k v
  proof -
    have "list_ex (\<lambda>(k', w). key_eq k k' \<and> py_eq v w) b"
      using "2.prems" kv by (auto simp: list_all_iff)
    then obtain k' w where kw: "(k', w) \<in> set b" "key_eq k k'" "py_eq v w"
      by (auto simp: list_ex_iff)
    have nb: "normal k'" "normal w" using "2.prems" kw(1) by (auto simp: list_all_iff)
    have "k = k'" using kw(2) nb(1) by (simp add: normal_key_eq')
    moreover have "py_wf v" using "2.prems" kv by (auto simp: list_all_iff)
    ultimately show ?thesis using "2.IH" kv kw nb by blast
  qed
  then show ?case using "2.prems" by (auto simp: list_all_iff)
qed (auto simp: normal_key_eq')

lemma py_eq_normalize:
  "normal v \<Longrightarrow> normal v' \<Longrightarrow> py_eq v' v \<Longrightarrow> py_eq (normalize v') (normalize v)"
proof (induction v' v rule: py_eq.induct)
  case (1 xs ys)
  have "list_all2 (\<lambda>x y. py_eq (normalize x) (normalize y)) xs ys"
  proof (rule list.rel_mono_strong)
    show "list_all2 py_eq xs ys" using "1.prems" by simp
  next
    fix x y assume "x \<in> set xs" "y \<in> set ys" "py_eq x y"
    then show "py_eq (normalize x) (normalize y)"
      using "1.IH" "1.prems" by (auto simp: list_all_iff)
  qed
  then show ?case by (simp add: list_all2_map1 list_all2_map2)
next
  case (2 a b)
  let ?nn = "\<lambda>(key, val). (normalize key, normalize val)"
  have na: "normalize (PDict a) = PDict (map ?nn a)"
    and nb: "normalize (PDict b) = PDict (map ?nn b)"
    using "2.prems" by (simp_all only: normalize_normal_dict)
  have "\<exists>(k', w) \<in> set (map ?nn b). key_eq (normalize k) k' \<and> py_eq (normalize v) w"
    if kv: "(k, v) \<in> set a" for k v
  proof -
    have "list_ex (\<lambda>(k', w). key_eq k k' \<and> py_eq v w) b"
      using "2.prems" kv by (auto simp: list_all_iff)
    then obtain k' w where kw: "(k', w) \<in> set b" "key_eq k k'" "py_eq v w"
      by (auto simp: list_ex_iff)
    have nw: "normal k'" "normal w" using "2.prems" kw(1) by (auto simp: list_all_iff)
    have nv: "normal v" using "2.prems" kv by (auto simp: list_all_iff)
    have "k = k'" using kw(2) nw(1) by (simp add: normal_key_eq')
    moreover have "py_eq (normalize v) (normalize w)"
      using "2.IH" kv kw nw nv by blast
    ultimately show ?thesis using kw(1) by force
  qed
  then have "list_all (\<lambda>(k, v). list_ex (\<lambda>(k', w). key_eq k k' \<and> py_eq v w) (map ?nn b))
               (map ?nn a)"
    by (auto simp: list_all_iff list_ex_iff)
  moreover have "length a = length b" using "2.prems" by simp
  ultimately show ?case unfolding na nb by simp
qed (auto simp: normal_key_eq')

lemma py_eq_PNone: "py_eq a PNone = (a = PNone)"
  by (cases a) simp_all

lemma decoded_normal:
  assumes "yaml_str_to_dict yaml s = Inr t"
  shows "normal t \<and> t \<noteq> PNone"
proof -
  obtain x where x: "yaml_load yaml s = Inr x"
    using assms by (auto simp: yaml_str_to_dict_def split: sum.splits)
  show ?thesis
  proof (cases "normalize x = PNone")
    case True
    with x assms show ?thesis by (auto simp: yaml_str_to_dict_def)
  next
    case False
    with x assms have "t = normalize x" by (auto simp: yaml_str_to_dict_def Let_def)
    with False show ?thesis using normal_normalize by simp
  qed
qed

subsection \<open>The loops of the two pruning functions\<close>

lemma key_eq_left: "key_eq a b \<Longrightarrow> key_eq a c = key_eq b c"
  using key_eq_trans [of a b c] key_eq_trans [of b a c] key_eq_sym [of a b] by blast

lemma key_eq_right: "key_eq a b \<Longrightarrow> key_eq c a = key_eq c b"
  using key_eq_trans [of c a b] key_eq_trans [of c b a] key_eq_sym [of a b] by blast

lemma dict_get_key_eq: "key_eq a b \<Longrightarrow> dict_get d a = dict_get d b"
proof (induction d)
  case Nil
  then show ?case by simp
next
  case (Cons p d)
  obtain k v where p: "p = (k, v)" by (cases p)
  have "key_eq k a = key_eq k b"
    using Cons.prems by (rule key_eq_right)
  with Cons p show ?case by simp
qed

lemma dict_get_dict_set:
  "dict_get (dict_set d k v) key = (if key_eq k key then Some v else dict_get d key)"
proof (induction d)
  case Nil
  then show ?case by simp
next
  case (Cons p d)
  obtain k1 v1 where p: "p = (k1, v1)" by (cases p)
  show ?case
  proof (cases "key_eq k1 k")
    case True
    then have "key_eq k1 key = key_eq k key"
      by (rule key_eq_left)
    with True p show ?thesis by simp
  next
    case False
    have "\<not> (key_eq k1 key \<and> key_eq k key)"
    proof
      assume h: "key_eq k1 key \<and> key_eq k key"
      then have "key_eq key k" using key_eq_sym by blast
      with h have "key_eq k1 k" using key_eq_trans [of k1 key k] by blast
      with False show False by simp
    qed
    with Cons False p show ?thesis by auto
  qed
qed

lemma dict_get_None_iff:
  "dict_get d key = None \<longleftrightarrow> list_all (\<lambda>(k, v). \<not> key_eq k key) d"
  by (induction d) (auto split: if_splits)

lemma py_in_empty_dict_vals:
  "py_in v empty_dict_vals =
     (v \<in> set [PNone, PStr '''', PStr ''[]'', PStr ''{}'', PList [], PDict []])"
  by (cases v) (auto simp: py_in_def empty_dict_vals_def)

lemma py_in_empty_list_vals:
  "py_in v empty_list_vals = (v \<in> set [PNone, PStr ''[]'', PStr ''{}'', PList [], PDict []])"
  by (cases v) (auto simp: py_in_def empty_list_vals_def)

lemma del_ignore_items_Cons:
  "del_ignore_items ((k, v) # items) dd acc =
     (case keep_item v (dict_get dd k) of
        Inl err \<Rightarrow> Inl err
      | Inr None \<Rightarrow> del_ignore_items items dd acc
      | Inr (Some x) \<Rightarrow> del_ignore_items items dd (dict_set acc k x))"
  by (simp add: keep_item_def split: option.splits sum.splits)

lemma del_ignore_items_get:
  assumes "del_ignore_items items dd acc = Inr res" and "dict_wf items"
  shows "case dict_get items key of
           None \<Rightarrow> dict_get res key = dict_get acc key
         | Some v \<Rightarrow> \<exists>out. keep_item v (dict_get dd key) = Inr out \<and>
               dict_get res key = (case out of None \<Rightarrow> dict_get acc key | Some x \<Rightarrow> Some x)"
  using assms
proof (induction items arbitrary: acc)
  case Nil
  then show ?case by simp
next
  case (Cons p items)
  obtain k v where p: "p = (k, v)" by (cases p)
  have wf: "dict_wf items" and fresh: "list_all (\<lambda>(k', v'). \<not> key_eq k' k) items"
    using Cons.prems(2) p by simp_all
  from Cons.prems(1) obtain out where out: "keep_item v (dict_get dd k) = Inr out"
    and run0: "del_ignore_items items dd (case out of None \<Rightarrow> acc | Some x \<Rightarrow> dict_set acc k x)
                = Inr res"
    unfolding p del_ignore_items_Cons by (auto split: sum.splits option.splits)
  define acc' where "acc' = (case out of None \<Rightarrow> acc | Some x \<Rightarrow> dict_set acc k x)"
  have run: "del_ignore_items items dd acc' = Inr res"
    using run0 by (simp add: acc'_def)
  have at_k: "key_eq k key \<Longrightarrow>
      dict_get acc' key = (case out of None \<Rightarrow> dict_get acc key | Some x \<Rightarrow> Some x)"
    and off_k: "\<not> key_eq k key \<Longrightarrow> dict_get acc' key = dict_get acc key"
    by (cases out; simp add: acc'_def dict_get_dict_set)+
  note ih = Cons.IH [OF run wf]
  show ?case
  proof (cases "key_eq k key")
    case True
    have dd: "dict_get dd k = dict_get dd key"
      using True by (rule dict_get_key_eq)
    have "\<And>k'. key_eq k' key = key_eq k' k"
      using True key_eq_right [of k key] by blast
    then have "list_all (\<lambda>(k', v'). \<not> key_eq k' key) items"
      using fresh by simp
    then have rest: "dict_get items key = None" by (simp add: dict_get_None_iff)
    have "dict_get res key = dict_get acc' key"
      using ih rest by simp
    with out dd True p at_k show ?thesis by simp
  next
    case False
    have e: "dict_get acc' key = dict_get acc key"
      using False by (rule off_k)
    show ?thesis using ih False p unfolding e by simp
  qed
qed

lemma del_ignore_items_returns:
  "(\<exists>res. del_ignore_items items dd acc = Inr res) \<longleftrightarrow>
   list_all (\<lambda>(k, v). \<exists>out. keep_item v (dict_get dd k) = Inr out) items"
proof (induction items arbitrary: acc)
  case Nil
  then show ?case by simp
next
  case (Cons p items)
  obtain k v where p: "p = (k, v)" by (cases p)
  show ?case
  proof (cases "keep_item v (dict_get dd k)")
    case (Inl err)
    then show ?thesis unfolding p del_ignore_items_Cons by simp
  next
    case (Inr out)
    then show ?thesis unfolding p del_ignore_items_Cons
      using Cons.IH by (cases out) simp_all
  qed
qed


lemma del_ignore_items_raises:
  "del_ignore_items items dd acc = Inl err \<Longrightarrow>
   \<exists>(k, v) \<in> set items. keep_item v (dict_get dd k) = Inl err"
proof (induction items arbitrary: acc)
  case Nil
  then show ?case by simp
next
  case (Cons p items)
  obtain k v where p: "p = (k, v)" by (cases p)
  show ?case
  proof (cases "keep_item v (dict_get dd k)")
    case (Inl e)
    have "del_ignore_items ((k, v) # items) dd acc = Inl e"
      by (simp only: del_ignore_items_Cons Inl sum.case)
    with Cons.prems p have "e = err" by simp
    with Inl p show ?thesis by simp
  next
    case (Inr out)
    define acc' where "acc' = (case out of None \<Rightarrow> acc | Some x \<Rightarrow> dict_set acc k x)"
    have "del_ignore_items ((k, v) # items) dd acc = del_ignore_items items dd acc'"
      by (cases out) (simp_all only: del_ignore_items_Cons Inr sum.case option.case acc'_def)
    with Cons.prems p have "del_ignore_items items dd acc' = Inl err" by simp
    then have "\<exists>(k, v) \<in> set items. keep_item v (dict_get dd k) = Inl err"
      by (rule Cons.IH)
    then show ?thesis by auto
  qed
qed

lemma keep_item_Inl:
  "keep_item v del = Inl err \<longleftrightarrow>
   (\<exists>d. del = Some d \<and> is_container v \<and> is_container d \<and> del_ignore_keys v d = Inl err)"
  by (auto simp: keep_item_def split: option.splits sum.splits)

lemma keep_item_Inr:
  "keep_item src_val del = Inr out \<longleftrightarrow>
   (case del of
      None \<Rightarrow> out = Some src_val
    | Some del_val \<Rightarrow>
        if is_container src_val \<and> is_container del_val then
          (\<exists>r. del_ignore_keys src_val del_val = Inr r \<and> out = Some r)
        else if del_val \<in> set [PNone, PStr [], PStr ''[]'', PStr ''{}'', PList [], PDict []]
                \<or> py_eq del_val src_val
        then out = None
        else out = Some src_val)"
  by (auto simp: keep_item_def py_in_empty_dict_vals split: option.splits sum.splits)

lemma prune_empty_scalar: "\<not> is_container v \<Longrightarrow> prune_empty_spec v = v"
  by (cases v) simp_all

lemma prune_empty_py_in:
  "prune_empty_spec (PDict d) =
     PDict (filter (\<lambda>(k, v). \<not> py_in v empty_dict_vals) (map (\<lambda>(k, v). (k, prune_empty_spec v)) d))"
  "prune_empty_spec (PList xs) =
     PList (filter (\<lambda>v. \<not> py_in v empty_list_vals) (map prune_empty_spec xs))"
  by (simp_all only: prune_empty_spec.simps py_in_empty_dict_vals py_in_empty_list_vals)

lemma del_empty_all:
  "(case del_empty_keys py2 obj of
      Inr r \<Rightarrow> r = prune_empty_spec obj
    | Inl err \<Rightarrow> \<not> py2 \<and> err = RuntimeError)"
  "(case del_empty_items py2 items of
      Inr r \<Rightarrow> r = filter (\<lambda>(k, v). \<not> py_in v empty_dict_vals)
                     (map (\<lambda>(k, v). (k, prune_empty_spec v)) items)
    | Inl err \<Rightarrow> \<not> py2 \<and> err = RuntimeError)"
  "(case del_empty_elems py2 todo of
      Inr r \<Rightarrow> r = filter (\<lambda>v. \<not> py_in v empty_list_vals) (map prune_empty_spec (rev todo))
    | Inl err \<Rightarrow> \<not> py2 \<and> err = RuntimeError)"
proof (induction py2 obj and py2 items and py2 todo
       rule: del_empty_keys_del_empty_items_del_empty_elems.induct)
  case (1 py2 obj)
  then show ?case by (simp add: prune_empty_py_in del: prune_empty_spec.simps split: sum.splits)
next
  case (2 py2 obj)
  then show ?case by (simp add: prune_empty_py_in del: prune_empty_spec.simps split: sum.splits)
next
  case (5 py2 key val items)
  define pv where "pv = (if is_container val then del_empty_keys py2 val else Inr val)"
  have pv: "case pv of Inr b \<Rightarrow> b = prune_empty_spec val | Inl err \<Rightarrow> \<not> py2 \<and> err = RuntimeError"
    using 5(1) by (cases "is_container val") (simp_all add: pv_def prune_empty_scalar)
  have unfold: "del_empty_items py2 ((key, val) # items) =
    (case pv of
       Inl err \<Rightarrow> Inl err
     | Inr val' \<Rightarrow>
         if py_in val' empty_dict_vals then
           (if py2 then del_empty_items py2 items else Inl RuntimeError)
         else
           (case del_empty_items py2 items of
              Inl err \<Rightarrow> Inl err
            | Inr items' \<Rightarrow> Inr ((key, val') # items')))"
    by (simp add: pv_def)
  show ?case
  proof (cases pv)
    case (Inl err)
    with pv show ?thesis unfolding unfold by (simp split: sum.splits)
  next
    case (Inr b)
    with pv have b: "b = prune_empty_spec val" by simp
    show ?thesis
    proof (cases "py_in b empty_dict_vals")
      case True
      show ?thesis
      proof (cases py2)
        case py2: True
        have "case del_empty_items py2 items of
                Inr r \<Rightarrow> r = filter (\<lambda>(k, v). \<not> py_in v empty_dict_vals)
                               (map (\<lambda>(k, v). (k, prune_empty_spec v)) items)
              | Inl err \<Rightarrow> \<not> py2 \<and> err = RuntimeError"
          using Inr True py2 by (intro 5(2) [of b]) (simp_all add: pv_def)
        with Inr True py2 b show ?thesis unfolding unfold by (simp split: sum.splits)
      next
        case False
        with Inr True show ?thesis unfolding unfold by (simp split: sum.splits)
      qed
    next
      case False
      have "case del_empty_items py2 items of
                Inr r \<Rightarrow> r = filter (\<lambda>(k, v). \<not> py_in v empty_dict_vals)
                               (map (\<lambda>(k, v). (k, prune_empty_spec v)) items)
              | Inl err \<Rightarrow> \<not> py2 \<and> err = RuntimeError"
        using Inr False by (intro 5(3) [of b]) (simp_all add: pv_def)
      with Inr False b show ?thesis unfolding unfold by (simp split: sum.splits)
    qed
  qed
next
  case (7 py2 val todo)
  define pv where "pv = (if is_container val then del_empty_keys py2 val else Inr val)"
  have pv: "case pv of Inr b \<Rightarrow> b = prune_empty_spec val | Inl err \<Rightarrow> \<not> py2 \<and> err = RuntimeError"
    using 7(1) by (cases "is_container val") (simp_all add: pv_def prune_empty_scalar)
  have unfold: "del_empty_elems py2 (val # todo) =
    (case pv of
       Inl err \<Rightarrow> Inl err
     | Inr val' \<Rightarrow>
         (case del_empty_elems py2 todo of
            Inl err \<Rightarrow> Inl err
          | Inr obj' \<Rightarrow>
              if py_in val' empty_list_vals then Inr obj' else Inr (obj' @ [val'])))"
    by (simp add: pv_def)
  show ?case
  proof (cases pv)
    case (Inl err)
    with pv show ?thesis unfolding unfold by (simp split: sum.splits)
  next
    case (Inr b)
    with pv have b: "b = prune_empty_spec val" by simp
    have "case del_empty_elems py2 todo of
            Inr r \<Rightarrow> r = filter (\<lambda>v. \<not> py_in v empty_list_vals) (map prune_empty_spec (rev todo))
          | Inl err \<Rightarrow> \<not> py2 \<and> err = RuntimeError"
      using Inr by (intro 7(2) [of b]) (simp add: pv_def)
    with Inr b show ?thesis unfolding unfold by (simp split: sum.splits)
  qed
qed simp_all

lemma del_ignore_keys_other_shapes:
  assumes "\<And>s d. \<not> (src = PDict s \<and> spec = PDict d)"
    and "\<And>xs d. \<not> (src = PList xs \<and> spec = PList [d])"
  shows "del_ignore_keys src spec = Inr (PDict [])"
  using assms by (cases "(src, spec)" rule: del_ignore_keys.cases) auto

lemma del_empty_items_python3_raises:
  assumes "(k, v) \<in> set items" and "\<not> is_container v" and "py_in v empty_dict_vals"
  shows "del_empty_items False items = Inl RuntimeError"
  using assms
proof (induction items)
  case Nil
  then show ?case by simp
next
  case (Cons p items)
  obtain k0 v0 where p: "p = (k0, v0)" by (cases p)
  define pv where "pv = (if is_container v0 then del_empty_keys False v0 else Inr v0)"
  have pv: "case pv of Inr b \<Rightarrow> b = prune_empty_spec v0 | Inl err \<Rightarrow> err = RuntimeError"
    using del_empty_all(1) [of False v0]
    by (cases "is_container v0") (simp_all add: pv_def prune_empty_scalar split: sum.splits)
  show ?case
  proof (cases "p = (k, v)")
    case True
    with Cons.prems p show ?thesis by simp
  next
    case False
    with Cons.prems have "(k, v) \<in> set items" by simp
    then have ih: "del_empty_items False items = Inl RuntimeError"
      using Cons.prems(2,3) by (rule Cons.IH)
    have unfold: "del_empty_items False ((k0, v0) # items) =
      (case pv of
         Inl err \<Rightarrow> Inl err
       | Inr val' \<Rightarrow>
           if py_in val' empty_dict_vals then Inl RuntimeError
           else
             (case del_empty_items False items of
                Inl err \<Rightarrow> Inl err
              | Inr items' \<Rightarrow> Inr ((k0, val') # items')))"
      by (simp add: pv_def)
    show ?thesis
    proof (cases pv)
      case (Inl err)
      with pv have "err = RuntimeError" by simp
      with Inl show ?thesis unfolding p unfold by simp
    next
      case (Inr b)
      with ih show ?thesis unfolding p unfold by simp
    qed
  qed
qed

subsection \<open>Runs on concrete inputs\<close>

text \<open>
  C1. The diff of the texts \<^verbatim>\<open>foo\<close> and \<^verbatim>\<open>bar\<close> with the ignore dictionary \<^verbatim>\<open>{}\<close> and
  \<^verbatim>\<open>diff_ignore_empty\<close> false is said to report a change, with \<^verbatim>\<open>bar\<close> and \<^verbatim>\<open>foo\<close>
  as the two renderings. The run does otherwise: both texts load as strings,
  \<^verbatim>\<open>del_ignore_keys\<close> answers its empty \<^verbatim>\<open>result_dict\<close> for a source that is no
  container, both sides are rendered as \<^verbatim>\<open>{}\<close>, and no change is reported, on either
  interpreter.
\<close>

theorem main_foo_bar_unchanged:
  "main pyyaml py2
     \<lparr>source = ''foo'', target = ''bar'', diff_ignore_keys = PDict [],
      diff_ignore_empty = False\<rparr>
   = Inr \<lparr>before = ''{}'' @ [nl], after = ''{}'' @ [nl], changed = False\<rparr>"
  by (simp add: ydiff_eval pyyaml_eval)

text \<open>
  C2. For a pair of shapes that is neither dictionary with dictionary nor list with
  one-element list, \<^verbatim>\<open>del_ignore_keys\<close> is said to return the source unchanged. It
  returns the empty \<^verbatim>\<open>result_dict\<close>: the string \<^verbatim>\<open>foo\<close> against \<^verbatim>\<open>{}\<close> gives \<^verbatim>\<open>{}\<close>,
  and so do a dictionary against a list and a list against a list of two elements.
\<close>

theorem del_ignore_keys_scalar_source:
  "del_ignore_keys (PStr ''foo'') (PDict []) = Inr (PDict [])
   \<and> del_ignore_keys (PDict [(PStr ''a'', PStr ''x'')]) (PList [PStr ''x'']) = Inr (PDict [])
   \<and> del_ignore_keys (PList [PStr ''x'']) (PList [PStr ''a'', PStr ''b'']) = Inr (PDict [])"
  by simp

text \<open>
  C4. An empty text is said to decode to the empty dictionary. \<^verbatim>\<open>yaml.load\<close> gives
  \<^verbatim>\<open>None\<close> for it, \<^verbatim>\<open>__normalize\<close> turns \<^verbatim>\<open>None\<close> into the string \<^verbatim>\<open>'None'\<close>, the
  test \<^verbatim>\<open>obj is None\<close> that follows does not hold, and the string is returned. A blank
  text and the text \<^verbatim>\<open>~\<close> go the same way.
\<close>

theorem yaml_str_to_dict_empty_text:
  "yaml_str_to_dict pyyaml [] = Inr (PStr ''None'')
   \<and> yaml_str_to_dict pyyaml [CHR '' '', nl] = Inr (PStr ''None'')
   \<and> yaml_str_to_dict pyyaml ''~'' = Inr (PStr ''None'')"
  by (simp add: ydiff_eval pyyaml_eval)

text \<open>
  C5. Normalisation is said to be idempotent on its image. The value \<^verbatim>\<open>None\<close> is in the
  image (it is the normal form of the string \<^verbatim>\<open>'null'\<close>), its normal form is the string
  \<^verbatim>\<open>'None'\<close>, and the normal form of that is \<^verbatim>\<open>None\<close> again.
\<close>

theorem normalize_None_not_fixed:
  "normalize (PStr ''null'') = PNone \<and> normalize PNone = PStr ''None''
   \<and> normalize (normalize PNone) = PNone"
  by (simp add: ydiff_eval)

text \<open>
  C6. For a list against a one-element list, an element that is neither recursed into nor
  dropped is said to be retained, and the result to be a list. The keep branch assigns to
  \<^verbatim>\<open>result_dict[key]\<close>, and \<^verbatim>\<open>key\<close> has no value in this branch of the function: the list
  \<^verbatim>\<open>['a']\<close> against the pattern \<^verbatim>\<open>['b']\<close> raises \<^verbatim>\<open>UnboundLocalError\<close>. The elements
  that are recursed into are stored under their index in \<^verbatim>\<open>result_dict\<close>: two
  dictionaries against the pattern \<^verbatim>\<open>[{drop: null}]\<close> come back as a dictionary with the
  keys 1 and 0.
\<close>

theorem del_ignore_keys_list_keep_raises:
  "del_ignore_keys (PList [PStr ''a'']) (PList [PStr ''b'']) = Inl UnboundLocalError
   \<and> del_ignore_keys
        (PList [PDict [(PStr ''drop'', PStr ''x''), (PStr ''keep'', PStr ''y'')],
                PDict [(PStr ''drop'', PStr ''z''), (PStr ''keep'', PStr ''w'')]])
        (PList [PDict [(PStr ''drop'', PNone)]])
      = Inr (PDict [(PInt 1, PDict [(PStr ''keep'', PStr ''w'')]),
                    (PInt 0, PDict [(PStr ''keep'', PStr ''y'')])])"
  by (simp add: ydiff_eval)

subsection \<open>Decoding\<close>

text \<open>
  C3. Decoding the text \<^verbatim>\<open>null\<close> and decoding the text \<^verbatim>\<open>None\<close> are each said to
  yield \<^verbatim>\<open>None\<close>. The text \<^verbatim>\<open>null\<close> loads as \<^verbatim>\<open>None\<close>, and \<^verbatim>\<open>__normalize\<close> has no
  case for \<^verbatim>\<open>None\<close>: it reaches \<^verbatim>\<open>str(obj)\<close> and the text decodes to the string
  \<^verbatim>\<open>'None'\<close>. A null that \<^verbatim>\<open>yaml.load\<close> returns as the element of a list or as the value
  of a dictionary becomes the string \<^verbatim>\<open>'None'\<close> in the same way.
\<close>

theorem decode_null_gives_string:
  "yaml_str_to_dict pyyaml ''null'' = Inr (PStr ''None'')
   \<and> PStr ''None'' \<noteq> PNone
   \<and> yaml_str_to_dict \<lparr>yaml_load = (\<lambda>s. Inr (PList [PNone])), yaml_dump = pyyaml_dump\<rparr>
         ''- null''
       = Inr (PList [PStr ''None''])
   \<and> yaml_str_to_dict
         \<lparr>yaml_load = (\<lambda>s. Inr (PDict [(PStr ''a'', PNone)])), yaml_dump = pyyaml_dump\<rparr>
         ''a: null''
       = Inr (PDict [(PStr ''a'', PStr ''None'')])"
  by (simp add: ydiff_eval pyyaml_eval)

text \<open>
  C9. Round trip: for a value \<open>t\<close> that decoding produced, encoding \<open>t\<close> and decoding the
  text gives a value equal to \<open>t\<close> (Python's \<^verbatim>\<open>==\<close>), whenever the library loads back
  what it dumped for the object that \<^verbatim>\<open>dict2yaml\<close> hands to \<^verbatim>\<open>yaml.dump\<close>. The two
  passes of \<^verbatim>\<open>__normalize\<close> on the way cancel, since \<^verbatim>\<open>__normalize\<close> exchanges
  \<^verbatim>\<open>None\<close> and \<^verbatim>\<open>'None'\<close> on its own results and leaves everything else of them alone.
\<close>

theorem decode_encode_roundtrip:
  assumes "yaml_str_to_dict yaml s = Inr t"
    and "yaml_roundtrips yaml (normalize t)"
  shows "\<exists>doc t'. dict2yaml yaml t = Inr doc \<and> yaml_str_to_dict yaml doc = Inr t' \<and> py_eq t' t"
proof -
  from assms(2) obtain doc v where
    dumped: "yaml_dump yaml (normalize t) = Inr doc" and
    loaded: "yaml_load yaml doc = Inr v" and
    wf: "py_wf v" and eqv: "py_eq v (normalize t)"
    by (auto simp: yaml_roundtrips_def split: sum.splits)
  have t: "normal t" "t \<noteq> PNone" using decoded_normal [OF assms(1)] by simp_all
  have nt: "normal (normalize t)" by (rule normal_normalize)
  have nv: "normal v" using nt wf eqv by (rule py_eq_normal)
  have "py_eq (normalize v) (normalize (normalize t))"
    using nt nv eqv by (rule py_eq_normalize)
  then have eq: "py_eq (normalize v) t" using t(1) by (simp only: normalize_involution)
  then have "normalize v \<noteq> PNone" using t(2) by (cases t) auto
  then have "yaml_str_to_dict yaml doc = Inr (normalize v)"
    using loaded by (simp add: yaml_str_to_dict_def Let_def)
  moreover have "dict2yaml yaml t = Inr doc"
    using dumped by (simp add: dict2yaml_def dict_to_yaml_str_def)
  ultimately show ?thesis using eq by simp
qed

theorem decode_encode_roundtrip_witness:
  "yaml_str_to_dict pyyaml ''foo'' = Inr (PStr ''foo'')
   \<and> yaml_roundtrips pyyaml (normalize (PStr ''foo''))
   \<and> (\<exists>doc t'. dict2yaml pyyaml (PStr ''foo'') = Inr doc
        \<and> yaml_str_to_dict pyyaml doc = Inr t' \<and> py_eq t' (PStr ''foo''))"
proof -
  have a: "yaml_str_to_dict pyyaml ''foo'' = Inr (PStr ''foo'')"
    by (simp add: ydiff_eval pyyaml_eval)
  have b: "yaml_roundtrips pyyaml (normalize (PStr ''foo''))"
    by (simp add: yaml_roundtrips_def ydiff_eval pyyaml_eval)
  from a b decode_encode_roundtrip [OF a b] show ?thesis by (intro conjI)
qed

subsection \<open>Pruning by the ignore dictionary\<close>

text \<open>
  C7. For two dictionaries, a key whose value in the ignore dictionary is neither empty
  (\<^verbatim>\<open>None\<close>, \<^verbatim>\<open>''\<close>, \<^verbatim>\<open>[]\<close>, \<^verbatim>\<open>{}\<close>) nor equal to the source value is said to be kept.
  The table \<^verbatim>\<open>__empty_dict_vals\<close> also holds the strings \<^verbatim>\<open>'[]'\<close> and \<^verbatim>\<open>'{}'\<close>: the key
  \<^verbatim>\<open>k\<close> with the value \<^verbatim>\<open>'x'\<close> is dropped by the ignore value \<^verbatim>\<open>'[]'\<close>.
\<close>

theorem del_ignore_keys_bracket_counterexample:
  "del_ignore_keys (PDict [(PStr ''k'', PStr ''x'')]) (PDict [(PStr ''k'', PStr ''[]'')])
     = Inr (PDict [])
   \<and> PStr ''[]'' \<notin> set [PNone, PStr [], PList [], PDict []]
   \<and> PStr ''[]'' \<noteq> PStr ''x''"
  by (simp add: ydiff_eval)

text \<open>
  C7 as the code has it. For two dictionaries the call raises only what a recursive call
  on two containers raises; otherwise it returns a dictionary in which a key absent from
  the source is absent, a key absent from the ignore dictionary has its source value, and
  a key present in both has the result of the recursive call when both values are
  containers (whatever their kinds, and before any test of emptiness), is absent when the
  ignore value is one of \<^verbatim>\<open>None\<close>, \<^verbatim>\<open>''\<close>, \<^verbatim>\<open>'[]'\<close>, \<^verbatim>\<open>'{}'\<close>, \<^verbatim>\<open>[]\<close>, \<^verbatim>\<open>{}\<close> or equals the
  source value, and has its source value otherwise.
\<close>

theorem del_ignore_keys_mapping:
  assumes "dict_wf src"
  shows
    "case del_ignore_keys (PDict src) (PDict spec) of
       Inl err \<Rightarrow>
         \<exists>(key, src_val) \<in> set src. \<exists>del_val.
            dict_get spec key = Some del_val \<and> is_container src_val \<and> is_container del_val
            \<and> del_ignore_keys src_val del_val = Inl err
     | Inr r \<Rightarrow>
         \<exists>res. r = PDict res \<and>
           (\<forall>key.
              case dict_get src key of
                None \<Rightarrow> dict_get res key = None
              | Some src_val \<Rightarrow>
                  (case dict_get spec key of
                     None \<Rightarrow> dict_get res key = Some src_val
                   | Some del_val \<Rightarrow>
                       if is_container src_val \<and> is_container del_val then
                         (\<exists>r'. del_ignore_keys src_val del_val = Inr r'
                               \<and> dict_get res key = Some r')
                       else if del_val \<in> set [PNone, PStr [], PStr ''[]'', PStr ''{}'',
                                               PList [], PDict []]
                               \<or> py_eq del_val src_val
                       then dict_get res key = None
                       else dict_get res key = Some src_val))"
proof (cases "del_ignore_items src spec []")
  case (Inl err)
  from del_ignore_items_raises [OF Inl]
  have "\<exists>(key, src_val) \<in> set src. \<exists>del_val.
            dict_get spec key = Some del_val \<and> is_container src_val \<and> is_container del_val
            \<and> del_ignore_keys src_val del_val = Inl err"
    by (auto simp: keep_item_Inl)
  with Inl show ?thesis by simp
next
  case (Inr res)
  have "case dict_get src key of
                None \<Rightarrow> dict_get res key = None
              | Some src_val \<Rightarrow>
                  (case dict_get spec key of
                     None \<Rightarrow> dict_get res key = Some src_val
                   | Some del_val \<Rightarrow>
                       if is_container src_val \<and> is_container del_val then
                         (\<exists>r'. del_ignore_keys src_val del_val = Inr r'
                               \<and> dict_get res key = Some r')
                       else if del_val \<in> set [PNone, PStr [], PStr ''[]'', PStr ''{}'',
                                               PList [], PDict []]
                               \<or> py_eq del_val src_val
                       then dict_get res key = None
                       else dict_get res key = Some src_val)" for key
  proof (cases "dict_get src key")
    case None
    with del_ignore_items_get [OF Inr assms, of key] show ?thesis by simp
  next
    case (Some src_val)
    with del_ignore_items_get [OF Inr assms, of key]
    obtain out where out: "keep_item src_val (dict_get spec key) = Inr out"
      and res0: "dict_get res key = (case out of None \<Rightarrow> dict_get [] key | Some x \<Rightarrow> Some x)"
      by auto
    have res: "dict_get res key = out" using res0 by (cases out) simp_all
    from out [unfolded keep_item_Inr] res Some show ?thesis
      by (auto split: option.splits if_splits)
  qed
  with Inr show ?thesis by simp
qed

theorem del_ignore_keys_mapping_witness:
  "dict_wf [(PStr ''a'', PStr ''1''), (PStr ''b'', PDict [(PStr ''c'', PStr ''t'')]),
            (PStr ''d'', PStr ''y''), (PStr ''e'', PStr ''5''), (PStr ''f'', PStr ''6'')]
   \<and> del_ignore_keys
        (PDict [(PStr ''a'', PStr ''1''), (PStr ''b'', PDict [(PStr ''c'', PStr ''t'')]),
                (PStr ''d'', PStr ''y''), (PStr ''e'', PStr ''5''), (PStr ''f'', PStr ''6'')])
        (PDict [(PStr ''b'', PDict [(PStr ''c'', PNone)]), (PStr ''d'', PStr ''[]''),
                (PStr ''e'', PStr ''5''), (PStr ''f'', PStr ''5'')])
      = Inr (PDict [(PStr ''a'', PStr ''1''), (PStr ''b'', PDict []), (PStr ''f'', PStr ''6'')])
   \<and> (\<exists>res. PDict [(PStr ''a'', PStr ''1''), (PStr ''b'', PDict []), (PStr ''f'', PStr ''6'')]
              = PDict res
         \<and> dict_get res (PStr ''a'') = Some (PStr ''1'')
         \<and> dict_get res (PStr ''d'') = None
         \<and> dict_get res (PStr ''e'') = None
         \<and> dict_get res (PStr ''f'') = Some (PStr ''6''))"
proof -
  let ?src = "[(PStr ''a'', PStr ''1''), (PStr ''b'', PDict [(PStr ''c'', PStr ''t'')]),
               (PStr ''d'', PStr ''y''), (PStr ''e'', PStr ''5''), (PStr ''f'', PStr ''6'')]"
  let ?spec = "[(PStr ''b'', PDict [(PStr ''c'', PNone)]), (PStr ''d'', PStr ''[]''),
                (PStr ''e'', PStr ''5''), (PStr ''f'', PStr ''5'')]"
  let ?res = "[(PStr ''a'', PStr ''1''), (PStr ''b'', PDict []), (PStr ''f'', PStr ''6'')]"
  have wf: "dict_wf ?src" by simp
  have run: "del_ignore_keys (PDict ?src) (PDict ?spec) = Inr (PDict ?res)"
    by (simp add: ydiff_eval)
  from del_ignore_keys_mapping [OF wf, of ?spec]
  obtain res where res: "PDict ?res = PDict res"
    and keys: "\<forall>key.
      case dict_get ?src key of
        None \<Rightarrow> dict_get res key = None
      | Some src_val \<Rightarrow>
          (case dict_get ?spec key of
             None \<Rightarrow> dict_get res key = Some src_val
           | Some del_val \<Rightarrow>
               if is_container src_val \<and> is_container del_val then
                 (\<exists>r'. del_ignore_keys src_val del_val = Inr r' \<and> dict_get res key = Some r')
               else if del_val \<in> set [PNone, PStr [], PStr ''[]'', PStr ''{}'', PList [], PDict []]
                       \<or> py_eq del_val src_val
               then dict_get res key = None
               else dict_get res key = Some src_val)"
    unfolding run sum.case by blast
  have a: "dict_get res (PStr ''a'') = Some (PStr ''1'')"
    using keys [rule_format, of "PStr ''a''"] by simp
  have d: "dict_get res (PStr ''d'') = None"
    using keys [rule_format, of "PStr ''d''"] by simp
  have e: "dict_get res (PStr ''e'') = None"
    using keys [rule_format, of "PStr ''e''"] by simp
  have f: "dict_get res (PStr ''f'') = Some (PStr ''6'')"
    using keys [rule_format, of "PStr ''f''"] by simp
  from wf run res a d e f show ?thesis by blast
qed

subsection \<open>Pruning of empty values\<close>

text \<open>
  C8. Inside a list only \<^verbatim>\<open>None\<close>, an empty list and an empty dictionary are said to
  trigger the removal of an element. The table \<^verbatim>\<open>__empty_list_vals\<close> also holds the
  strings \<^verbatim>\<open>'[]'\<close> and \<^verbatim>\<open>'{}'\<close>: the list \<^verbatim>\<open>['[]']\<close> is pruned to \<^verbatim>\<open>[]\<close>.
\<close>

theorem del_empty_keys_bracket_counterexample:
  "del_empty_keys True (PList [PStr ''[]'']) = Inr (PList [])
   \<and> del_empty_keys False (PList [PStr ''[]'']) = Inr (PList [])
   \<and> PStr ''[]'' \<notin> set [PNone, PList [], PDict []]"
  by (simp add: ydiff_eval)

text \<open>
  C8 as the code has it. Whenever \<^verbatim>\<open>del_empty_keys\<close> returns, its result is the value
  pruned bottom-up with the emptiness of the context, \<open>prune_empty_spec\<close>: a dictionary loses
  the keys whose pruned value is \<^verbatim>\<open>None\<close>, \<^verbatim>\<open>''\<close>, \<^verbatim>\<open>'[]'\<close>, \<^verbatim>\<open>'{}'\<close>, \<^verbatim>\<open>[]\<close> or \<^verbatim>\<open>{}\<close>;
  a list keeps the element \<^verbatim>\<open>''\<close> and loses the elements whose pruned value is
  \<^verbatim>\<open>None\<close>, \<^verbatim>\<open>'[]'\<close>, \<^verbatim>\<open>'{}'\<close>, \<^verbatim>\<open>[]\<close> or \<^verbatim>\<open>{}\<close>, the others staying in order. Under
  Python 2 it always returns.
\<close>

theorem del_empty_keys_prune_empty:
  "case del_empty_keys py2 obj of
     Inr r \<Rightarrow> r = prune_empty_spec obj
   | Inl err \<Rightarrow> \<not> py2 \<and> err = RuntimeError"
  by (rule del_empty_all(1))

theorem del_empty_keys_prune_empty_witness:
  "del_empty_keys True
     (PDict [(PStr ''a'', PStr ''''),
             (PStr ''b'', PList [PStr '''', PStr ''[]'', PNone, PDict [], PStr ''x'']),
             (PStr ''c'', PList [PList []])])
   = Inr (PDict [(PStr ''b'', PList [PStr '''', PStr ''x''])])
   \<and> PDict [(PStr ''b'', PList [PStr '''', PStr ''x''])]
     = prune_empty_spec
         (PDict [(PStr ''a'', PStr ''''),
                 (PStr ''b'', PList [PStr '''', PStr ''[]'', PNone, PDict [], PStr ''x'']),
                 (PStr ''c'', PList [PList []])])"
proof -
  let ?obj = "PDict [(PStr ''a'', PStr ''''),
                     (PStr ''b'', PList [PStr '''', PStr ''[]'', PNone, PDict [], PStr ''x'']),
                     (PStr ''c'', PList [PList []])]"
  have run: "del_empty_keys True ?obj = Inr (PDict [(PStr ''b'', PList [PStr '''', PStr ''x''])])"
    by (simp add: ydiff_eval)
  from del_empty_keys_prune_empty [of True ?obj]
  have "PDict [(PStr ''b'', PList [PStr '''', PStr ''x''])] = prune_empty_spec ?obj"
    unfolding run sum.case .
  with run show ?thesis by (rule conjI)
qed

text \<open>
  C10. A key of a dictionary whose value is the string \<^verbatim>\<open>'[]'\<close> or \<^verbatim>\<open>'{}'\<close> is said to
  be dropped. Under Python 3 the loop runs over the view \<^verbatim>\<open>obj.items()\<close>; after
  \<^verbatim>\<open>del obj[key]\<close> the next step of the iterator raises \<^verbatim>\<open>RuntimeError\<close>, and the call
  returns nothing. Under Python 2 the key is dropped.
\<close>

theorem del_empty_keys_python3_raises:
  "del_empty_keys False (PDict [(PStr ''k'', PStr ''[]'')]) = Inl RuntimeError
   \<and> del_empty_keys False (PDict [(PStr ''k'', PStr ''{}'')]) = Inl RuntimeError
   \<and> del_empty_keys True (PDict [(PStr ''k'', PStr ''[]'')]) = Inr (PDict [])"
  by (simp add: ydiff_eval)

end
